theory Spec2Isabelle
  imports Complex_Main "HOL-Library.Word"
begin

section \<open>Data model\<close>

text \<open>
  The pixel buffer of \<open>src/App.tsx\<close> is \<open>imageData.data\<close>, the
  \<open>Uint8ClampedArray\<close> of an \<open>ImageData\<close> object: four bytes per pixel in the
  order R, G, B, A. A byte is an 8-bit word, so every channel is in \<open>[0,255]\<close> by its
  type. The \<open>ImageData\<close> object carries its width and height beside the buffer.
\<close>

type_synonym uint8 = "8 word"

record ImageData =
  width :: nat
  height :: nat
  data :: "uint8 list"

text \<open>
  The two colour literals of lines 95-96 are objects with the number fields \<open>r\<close>,
  \<open>g\<close>, \<open>b\<close>; the fields are spelled out here, since one-letter constants would
  capture the variables of every statement below.
\<close>

record color =
  red :: real
  green :: real
  blue :: real

text \<open>
  A buffer is well formed when it holds exactly four bytes for each of the
  \<open>width * height\<close> pixels. The source never tests this: it only ever receives the
  buffer that \<open>ctx.getImageData\<close> builds.
\<close>

definition wellFormed :: "ImageData \<Rightarrow> bool" where
  "wellFormed img \<longleftrightarrow> length (data img) = width img * height img * 4"

section \<open>Numbers and typed-array stores\<close>

text \<open>
  The source computes in JavaScript numbers. They are taken here as real numbers: every
  arithmetic expression below denotes the exact value of the expression the source writes,
  without the rounding of IEEE-754 doubles. Reading a byte of the buffer gives its unsigned
  value as a number.
\<close>

definition num :: "uint8 \<Rightarrow> real" where
  "num v = real (unat v)"

text \<open>
  \<open>Math.pow\<close>, for the arguments the loop supplies: a base in \<open>[0,1]\<close> and the
  positive exponent \<open>1 / gamma\<close>. There \<open>Math.pow(0, y) = 0\<close>, as \<open>0 powr y = 0\<close>.
\<close>

definition pow :: "real \<Rightarrow> real \<Rightarrow> real" where
  "pow x y = x powr y"

text \<open>
  Storing a number into a \<open>Uint8ClampedArray\<close> converts it with ECMAScript's
  \<open>ToUint8Clamp\<close>: clamp to \<open>[0,255]\<close>, then round to the nearest integer, a tie
  going to the even neighbour.
\<close>

definition roundTiesToEven :: "real \<Rightarrow> int" where
  "roundTiesToEven c =
     (let f = \<lfloor>c\<rfloor>
      in if c < of_int f + 1 / 2 then f
         else if of_int f + 1 / 2 < c then f + 1
         else if even f then f else f + 1)"

definition ToUint8Clamp :: "real \<Rightarrow> uint8" where
  "ToUint8Clamp x = word_of_int (roundTiesToEven (min (max x 0) 255))"

section \<open>The duotone pass of \<open>applyDuotoneFilter\<close>\<close>

text \<open>Lines 95-96: Hero Green (dark) and Pink (light).\<close>

definition darkColor :: color where
  "darkColor = \<lparr>red = 27, green = 96, blue = 47\<rparr>"

definition lightColor :: color where
  "lightColor = \<lparr>red = 247, green = 132, blue = 197\<rparr>"

text \<open>Line 103.\<close>

definition gray :: "uint8 \<Rightarrow> uint8 \<Rightarrow> uint8 \<Rightarrow> real" where
  "gray r g b = 0.299 * num r + 0.587 * num g + 0.114 * num b"

text \<open>Lines 106-108.\<close>

definition gamma :: real where
  "gamma = 0.9"

definition correctedGray :: "real \<Rightarrow> real" where
  "correctedGray gr = 255 * pow (gr / 255) (1 / gamma)"

definition normalizedGray :: "real \<Rightarrow> real" where
  "normalizedGray cg = cg / 255"

text \<open>
  Lines 103-112 on one pixel: the three numbers the body stores, each converted by the
  store into the clamped byte array.
\<close>

definition pixel :: "uint8 \<Rightarrow> uint8 \<Rightarrow> uint8 \<Rightarrow> uint8 \<times> uint8 \<times> uint8" where
  "pixel r g b =
     (let n = normalizedGray (correctedGray (gray r g b))
      in (ToUint8Clamp (red darkColor + (red lightColor - red darkColor) * n),
          ToUint8Clamp (green darkColor + (green lightColor - green darkColor) * n),
          ToUint8Clamp (blue darkColor + (blue lightColor - blue darkColor) * n)))"

text \<open>
  One iteration of the loop of lines 98-113 at index \<open>i < data.length\<close>. When the three
  reads are in range the body stores the mapped pixel. Otherwise \<open>data[i + 2]\<close> is
  \<open>undefined\<close>, \<open>gray\<close> is \<open>NaN\<close>, every stored number is \<open>NaN\<close> and the store
  writes 0. A store beyond the end of a typed array is ignored, as \<open>d[j := v]\<close> is for
  \<open>j \<ge> length d\<close>.
\<close>

definition body :: "nat \<Rightarrow> uint8 list \<Rightarrow> uint8 list" where
  "body i d =
     (if i + 2 < length d
      then (case pixel (d ! i) (d ! (i + 1)) (d ! (i + 2)) of
              (r', g', b') \<Rightarrow> d[i := r', i + 1 := g', i + 2 := b'])
      else d[i := 0, i + 1 := 0, i + 2 := 0])"

text \<open>\<open>for (let i = 0; i < data.length; i += 4)\<close>, started at \<open>i\<close>.\<close>

function loop :: "nat \<Rightarrow> uint8 list \<Rightarrow> uint8 list" where
  "loop i d = (if i < length d then loop (i + 4) (body i d) else d)"
  by pat_completeness auto
termination
  by (relation "measure (\<lambda>(i, d). length d - i)") (auto simp: body_def split: prod.split)

declare loop.simps [simp del]

text \<open>
  Lines 91-115: the pass over the buffer of the image data. The object keeps its width and
  height; its buffer is rewritten in place.
\<close>

definition duotonePass :: "ImageData \<Rightarrow> ImageData" where
  "duotonePass imageData = imageData\<lparr>data := loop 0 (data imageData)\<rparr>"

text \<open>
  The whole callback. \<open>canvasRef.current\<close> may be null (the callback returns without
  doing anything) and \<open>canvas.getContext\<close> may return null (the callback sets the error
  message); otherwise the image data read back from the canvas is mapped. The argument is
  the canvas, if any, holding its context, if any, holding the image data that
  \<open>getImageData\<close> returns once the picture is drawn.
\<close>

datatype outcome = Skipped | Failed string | Processed ImageData

definition applyDuotoneFilter :: "ImageData option option \<Rightarrow> outcome" where
  "applyDuotoneFilter canvas =
     (case canvas of
        None \<Rightarrow> Skipped
      | Some ctx \<Rightarrow>
          (case ctx of
             None \<Rightarrow> Failed ''Could not get canvas context.''
           | Some imageData \<Rightarrow> Processed (duotonePass imageData)))"

section \<open>Reading pixels, and the words of the specification\<close>

text \<open>The four bytes of pixel \<open>p\<close> of a buffer.\<close>

definition redAt :: "ImageData \<Rightarrow> nat \<Rightarrow> uint8" where
  "redAt img p = data img ! (4 * p)"

definition greenAt :: "ImageData \<Rightarrow> nat \<Rightarrow> uint8" where
  "greenAt img p = data img ! (4 * p + 1)"

definition blueAt :: "ImageData \<Rightarrow> nat \<Rightarrow> uint8" where
  "blueAt img p = data img ! (4 * p + 2)"

definition alphaAt :: "ImageData \<Rightarrow> nat \<Rightarrow> uint8" where
  "alphaAt img p = data img ! (4 * p + 3)"

text \<open>Channel \<open>k\<close> of a mapped pixel, and what the loop leaves at offset \<open>k\<close> of the
  group of four bytes that starts at \<open>s\<close>.\<close>

fun chan :: "nat \<Rightarrow> uint8 \<times> uint8 \<times> uint8 \<Rightarrow> uint8" where
  "chan k (r', g', b') = (if k = 0 then r' else if k = 1 then g' else b')"

definition expected :: "uint8 list \<Rightarrow> nat \<Rightarrow> nat \<Rightarrow> uint8" where
  "expected d s k =
     (if k = 3 then d ! (s + 3)
      else if s + 2 < length d then chan k (pixel (d ! s) (d ! (s + 1)) (d ! (s + 2)))
      else 0)"

text \<open>
  The interpolation parameter of a pixel, as the body computes it.
\<close>

definition param :: "uint8 \<Rightarrow> uint8 \<Rightarrow> uint8 \<Rightarrow> real" where
  "param r g b = normalizedGray (correctedGray (gray r g b))"



definition isNearest :: "uint8 \<Rightarrow> real \<Rightarrow> bool" where
  "isNearest v x \<longleftrightarrow> \<bar>num v - x\<bar> \<le> 1 / 2"

section \<open>The byte store\<close>

lemma roundTiesToEven_near: "\<bar>real_of_int (roundTiesToEven c) - c\<bar> \<le> 1 / 2"
  unfolding roundTiesToEven_def Let_def by (auto; linarith)

lemma roundTiesToEven_mono:
  assumes le: "c \<le> c'"
  shows "roundTiesToEven c \<le> roundTiesToEven c'"
proof (cases "\<lfloor>c\<rfloor> = \<lfloor>c'\<rfloor>")
  case True
  then show ?thesis using le unfolding roundTiesToEven_def Let_def by auto
next
  case False
  moreover have "\<lfloor>c\<rfloor> \<le> \<lfloor>c'\<rfloor>" using le by (rule floor_mono)
  ultimately have "\<lfloor>c\<rfloor> + 1 \<le> \<lfloor>c'\<rfloor>" by simp
  moreover have "roundTiesToEven c \<le> \<lfloor>c\<rfloor> + 1"
    unfolding roundTiesToEven_def Let_def by auto
  moreover have "\<lfloor>c'\<rfloor> \<le> roundTiesToEven c'"
    unfolding roundTiesToEven_def Let_def by auto
  ultimately show ?thesis by linarith
qed

lemma roundTiesToEven_of_int: "roundTiesToEven (of_int n) = n"
  unfolding roundTiesToEven_def Let_def by simp

lemma roundTiesToEven_between:
  "of_int n - 1 / 2 < c \<Longrightarrow> c < of_int n + 1 / 2 \<Longrightarrow> roundTiesToEven c = n"
  unfolding roundTiesToEven_def Let_def by (auto; linarith)

lemma clamped_round_range:
  "0 \<le> roundTiesToEven (min (max x 0) 255) \<and> roundTiesToEven (min (max x 0) 255) \<le> 255"
  using roundTiesToEven_mono[of 0 "min (max x 0) 255"]
    roundTiesToEven_mono[of "min (max x 0) 255" 255]
    roundTiesToEven_of_int[of 0] roundTiesToEven_of_int[of 255]
  by simp

lemma uint_ToUint8Clamp: "uint (ToUint8Clamp x) = roundTiesToEven (min (max x 0) 255)"
  unfolding ToUint8Clamp_def using clamped_round_range[of x]
  by (simp add: uint_word_of_int take_bit_int_eq_self)

lemma num_ToUint8Clamp:
  "num (ToUint8Clamp x) = real_of_int (roundTiesToEven (min (max x 0) 255))"
  using clamped_round_range[of x] by (simp add: num_def unat_eq_nat_uint uint_ToUint8Clamp)


lemma ToUint8Clamp_between:
  assumes "of_int n - 1 / 2 < x" "x < of_int n + 1 / 2" "0 \<le> n" "n \<le> 255"
  shows "ToUint8Clamp x = word_of_int n"
proof -
  have "of_int n - 1 / 2 < min (max x 0) 255" "min (max x 0) 255 < of_int n + 1 / 2"
    using assms by auto
  then have "roundTiesToEven (min (max x 0) 255) = n" by (rule roundTiesToEven_between)
  then show ?thesis by (simp add: ToUint8Clamp_def)
qed

lemma ToUint8Clamp_within:
  assumes "of_int lo \<le> x" "x \<le> of_int hi" "0 \<le> lo" "hi \<le> 255"
  shows "real_of_int lo \<le> num (ToUint8Clamp x) \<and> num (ToUint8Clamp x) \<le> real_of_int hi"
proof -
  have c: "min (max x 0) 255 = x" using assms by auto
  have "lo \<le> roundTiesToEven x" "roundTiesToEven x \<le> hi"
    using roundTiesToEven_mono[OF assms(1)] roundTiesToEven_mono[OF assms(2)]
    by (simp_all add: roundTiesToEven_of_int)
  then show ?thesis by (simp add: num_ToUint8Clamp c)
qed

lemma ToUint8Clamp_nearest: "isNearest (ToUint8Clamp x) (min (max x 0) 255)"
  unfolding isNearest_def num_ToUint8Clamp by (rule roundTiesToEven_near)

section \<open>The interpolation parameter\<close>

lemma num_bounds: "0 \<le> num v \<and> num v \<le> 255"
proof -
  have a: "unat v \<le> 255" using unsigned_less[of v, where 'a = nat] by simp
  have "real (unat v) \<le> real 255" using a by (simp only: of_nat_le_iff)
  also have "real 255 = 255" by simp
  finally have "num v \<le> 255" by (simp only: num_def)
  moreover have "0 \<le> num v" by (simp only: num_def of_nat_0_le_iff)
  ultimately show ?thesis by simp
qed


lemma gray_bounds: "0 \<le> gray r g b \<and> gray r g b \<le> 255"
  using num_bounds[of r] num_bounds[of g] num_bounds[of b] by (simp add: gray_def)


lemma param_eq: "param r g b = (gray r g b / 255) powr (10 / 9)"
  by (simp add: param_def normalizedGray_def correctedGray_def pow_def gamma_def)

lemma param_bounds: "0 \<le> param r g b \<and> param r g b \<le> 1"
  using gray_bounds[of r g b] by (simp add: param_eq powr_le1)


lemma pixel_param:
  "pixel r g b =
     (ToUint8Clamp (27 + 220 * param r g b),
      ToUint8Clamp (96 + 36 * param r g b),
      ToUint8Clamp (47 + 150 * param r g b))"
  by (simp add: pixel_def param_def darkColor_def lightColor_def Let_def)

text \<open>Ninth roots, to evaluate the power at a rational base between rational bounds.\<close>

lemma root9_power9:
  fixes a :: real
  assumes "0 \<le> a"
  shows "(a ^ 9) powr (1 / 9) = a"
proof (cases "a = 0")
  case True
  then show ?thesis by simp
next
  case False
  then have pos: "0 < a" using assms by simp
  have "(a ^ 9) powr (1 / 9) = (a powr 9) powr (1 / 9)"
    using powr_realpow[OF pos, of 9] by simp
  also have "\<dots> = a powr 1" by (simp only: powr_powr) simp
  finally show ?thesis using pos by simp
qed

lemma powr_10_9:
  fixes x :: real
  assumes "0 < x"
  shows "x powr (10 / 9) = (x ^ 10) powr (1 / 9)"
proof -
  have "(x ^ 10) powr (1 / 9) = (x powr 10) powr (1 / 9)"
    using powr_realpow[OF assms, of 10] by simp
  also have "\<dots> = x powr (10 / 9)" by (simp only: powr_powr) simp
  finally show ?thesis by simp
qed

lemma powr_10_9_lower:
  fixes a x :: real
  assumes "0 \<le> a" "0 < x" "a ^ 9 < x ^ 10"
  shows "a < x powr (10 / 9)"
proof -
  have "(a ^ 9) powr (1 / 9) < (x ^ 10) powr (1 / 9)"
    using assms by (intro powr_less_mono2) simp_all
  then show ?thesis by (simp only: root9_power9[OF assms(1)] powr_10_9[OF assms(2)])
qed

lemma powr_10_9_upper:
  fixes a x :: real
  assumes "0 \<le> a" "0 < x" "x ^ 10 < a ^ 9"
  shows "x powr (10 / 9) < a"
proof -
  have "(x ^ 10) powr (1 / 9) < (a ^ 9) powr (1 / 9)"
    using assms by (intro powr_less_mono2) simp_all
  then show ?thesis by (simp only: root9_power9[OF assms(1)] powr_10_9[OF assms(2)])
qed

text \<open>Tenth roots, for the power with the exponent \<open>gamma\<close> itself.\<close>

lemma root10_power10:
  fixes a :: real
  assumes "0 \<le> a"
  shows "(a ^ 10) powr (1 / 10) = a"
proof (cases "a = 0")
  case True
  then show ?thesis by simp
next
  case False
  then have pos: "0 < a" using assms by simp
  have "(a ^ 10) powr (1 / 10) = (a powr 10) powr (1 / 10)"
    using powr_realpow[OF pos, of 10] by simp
  also have "\<dots> = a powr 1" by (simp only: powr_powr) simp
  finally show ?thesis using pos by simp
qed

lemma powr_9_10:
  fixes x :: real
  assumes "0 < x"
  shows "x powr (9 / 10) = (x ^ 9) powr (1 / 10)"
proof -
  have "(x ^ 9) powr (1 / 10) = (x powr 9) powr (1 / 10)"
    using powr_realpow[OF assms, of 9] by simp
  also have "\<dots> = x powr (9 / 10)" by (simp only: powr_powr) simp
  finally show ?thesis by simp
qed

lemma powr_9_10_lower:
  fixes a x :: real
  assumes "0 \<le> a" "0 < x" "a ^ 10 < x ^ 9"
  shows "a < x powr (9 / 10)"
proof -
  have "(a ^ 10) powr (1 / 10) < (x ^ 9) powr (1 / 10)"
    using assms by (intro powr_less_mono2) simp_all
  then show ?thesis by (simp only: root10_power10[OF assms(1)] powr_9_10[OF assms(2)])
qed

lemma powr_9_10_upper:
  fixes a x :: real
  assumes "0 \<le> a" "0 < x" "x ^ 9 < a ^ 10"
  shows "x powr (9 / 10) < a"
proof -
  have "(x ^ 9) powr (1 / 10) < (a ^ 10) powr (1 / 10)"
    using assms by (intro powr_less_mono2) simp_all
  then show ?thesis by (simp only: root10_power10[OF assms(1)] powr_9_10[OF assms(2)])
qed

lemma lighter_mid: "537 / 1000 < pow (128 / 255) gamma \<and> pow (128 / 255) gamma < 538 / 1000"
proof -
  have "(537 / 1000 :: real) < (128 / 255) powr (9 / 10)"
    by (rule powr_9_10_lower) (simp_all add: power_divide)
  moreover have "(128 / 255 :: real) powr (9 / 10) < 538 / 1000"
    by (rule powr_9_10_upper) (simp_all add: power_divide)
  ultimately show ?thesis by (simp add: pow_def gamma_def)
qed

lemma gray_black: "gray 0 0 0 = 0"
  by (simp add: gray_def num_def)


lemma gray_mid: "gray 128 128 128 = 128"
  by (simp add: gray_def num_def)

lemma gray_dark: "gray 27 96 47 = 69783 / 1000"
  by (simp add: gray_def num_def)

lemma param_mid: "4649 / 10000 < param 128 128 128 \<and> param 128 128 128 < 4650 / 10000"
proof -
  have "(4649 / 10000 :: real) < (128 / 255) powr (10 / 9)"
    by (rule powr_10_9_lower) (simp_all add: power_divide)
  moreover have "(128 / 255 :: real) powr (10 / 9) < 4650 / 10000"
    by (rule powr_10_9_upper) (simp_all add: power_divide)
  ultimately show ?thesis by (simp add: param_eq gray_mid)
qed

lemma param_dark: "2368 / 10000 < param 27 96 47 \<and> param 27 96 47 < 2380 / 10000"
proof -
  have "(2368 / 10000 :: real) < (69783 / 255000) powr (10 / 9)"
    by (rule powr_10_9_lower) (simp_all add: power_divide)
  moreover have "(69783 / 255000 :: real) powr (10 / 9) < 2380 / 10000"
    by (rule powr_10_9_upper) (simp_all add: power_divide)
  ultimately show ?thesis by (simp add: param_eq gray_dark)
qed

lemma pixel_black: "pixel 0 0 0 = (27, 96, 47)"
  by (simp add: pixel_param param_eq gray_black ToUint8Clamp_def roundTiesToEven_def)


lemma pixel_mid: "pixel 128 128 128 = (129, 113, 117)"
proof -
  have "ToUint8Clamp (27 + 220 * param 128 128 128) = word_of_int 129"
    using param_mid by (intro ToUint8Clamp_between) simp_all
  moreover have "ToUint8Clamp (96 + 36 * param 128 128 128) = word_of_int 113"
    using param_mid by (intro ToUint8Clamp_between) simp_all
  moreover have "ToUint8Clamp (47 + 150 * param 128 128 128) = word_of_int 117"
    using param_mid by (intro ToUint8Clamp_between) simp_all
  ultimately show ?thesis by (simp add: pixel_param)
qed

lemma pixel_dark: "pixel 27 96 47 = (79, 105, 83)"
proof -
  have "ToUint8Clamp (27 + 220 * param 27 96 47) = word_of_int 79"
    using param_dark by (intro ToUint8Clamp_between) simp_all
  moreover have "ToUint8Clamp (96 + 36 * param 27 96 47) = word_of_int 105"
    using param_dark by (intro ToUint8Clamp_between) simp_all
  moreover have "ToUint8Clamp (47 + 150 * param 27 96 47) = word_of_int 83"
    using param_dark by (intro ToUint8Clamp_between) simp_all
  ultimately show ?thesis by (simp add: pixel_param)
qed

section \<open>The loop\<close>

lemma length_body: "length (body i d) = length d"
  by (simp add: body_def split: prod.split)

lemma length_loop: "length (loop i d) = length d"
  by (induction i d rule: loop.induct) (subst loop.simps, simp add: length_body)

lemma body_nth:
  "body i d ! m =
     (if i + 2 < length d
      then (if m = i then chan 0 (pixel (d ! i) (d ! (i + 1)) (d ! (i + 2)))
            else if m = i + 1 then chan 1 (pixel (d ! i) (d ! (i + 1)) (d ! (i + 2)))
            else if m = i + 2 then chan 2 (pixel (d ! i) (d ! (i + 1)) (d ! (i + 2)))
            else d ! m)
      else (if m < length d \<and> (m = i \<or> m = i + 1 \<or> m = i + 2) then 0 else d ! m))"
  by (auto simp: body_def nth_list_update list_update_beyond split: prod.split)

lemma body_nth_other:
  "m \<noteq> i \<Longrightarrow> m \<noteq> i + 1 \<Longrightarrow> m \<noteq> i + 2 \<Longrightarrow> body i d ! m = d ! m"
  by (simp add: body_nth)

lemma expected_body: "i + 4 \<le> s \<Longrightarrow> expected (body i d) s k = expected d s k"
  by (simp add: expected_def length_body body_nth_other)

lemma loop_nth:
  "j < length d \<Longrightarrow>
   loop i d ! j = (if j < i then d ! j else expected d (j - (j - i) mod 4) ((j - i) mod 4))"
proof (induction i d rule: loop.induct)
  case (1 i d)
  show ?case
  proof (cases "i < length d")
    case False
    then show ?thesis using 1(2) by (subst loop.simps) simp
  next
    case True
    have jb: "j < length (body i d)" using 1(2) by (simp add: length_body)
    note IH = 1(1)[OF True jb]
    have step: "loop i d = loop (i + 4) (body i d)"
      using True by (subst loop.simps) simp
    consider "j < i" | "j = i" | "j = i + 1" | "j = i + 2" | "j = i + 3" | "i + 4 \<le> j"
      by linarith
    then show ?thesis
    proof cases
      case 1
      then show ?thesis unfolding step IH by (simp add: body_nth_other)
    next
      case 2
      then show ?thesis using \<open>j < length d\<close> unfolding step IH
        by (simp add: body_nth expected_def)
    next
      case 3
      then show ?thesis using \<open>j < length d\<close> unfolding step IH
        by (simp add: body_nth expected_def)
    next
      case 4
      then show ?thesis using \<open>j < length d\<close> unfolding step IH
        by (simp add: body_nth expected_def)
    next
      case 5
      then show ?thesis using \<open>j < length d\<close> unfolding step IH
        by (simp add: body_nth_other expected_def)
    next
      case 6
      have e: "j - i = (j - (i + 4)) + 4" using 6 by simp
      have k4: "(j - (i + 4)) mod 4 = (j - i) mod 4" by (subst e) simp
      have "(j - i) mod 4 \<le> j - (i + 4)"
        using mod_less_eq_dividend[of "j - (i + 4)" 4] by (simp only: k4)
      then have sl: "i + 4 \<le> j - (j - i) mod 4" using 6 by linarith
      have "loop i d ! j = expected (body i d) (j - (j - i) mod 4) ((j - i) mod 4)"
        unfolding step IH k4 using 6 by simp
      also have "\<dots> = expected d (j - (j - i) mod 4) ((j - i) mod 4)"
        using sl by (rule expected_body)
      finally show ?thesis using 6 by simp
    qed
  qed
qed

lemma loop_channel:
  assumes "4 * p + 2 < length d" "k < 3"
  shows "loop 0 d ! (4 * p + k) = chan k (pixel (d ! (4 * p)) (d ! (4 * p + 1)) (d ! (4 * p + 2)))"
proof -
  have m: "(4 * p + k) mod 4 = k" using assms(2) by simp
  have j: "4 * p + k < length d" using assms by simp
  show ?thesis using assms by (simp add: loop_nth[OF j] m expected_def)
qed

lemma loop_alpha:
  assumes "4 * p + 3 < length d"
  shows "loop 0 d ! (4 * p + 3) = d ! (4 * p + 3)"
proof -
  have m: "(4 * p + 3) mod 4 = 3" by simp
  show ?thesis by (simp add: loop_nth[OF assms] m expected_def)
qed

lemma loop_single:
  "loop 0 [r, g, b, a] = (case pixel r g b of (r', g', b') \<Rightarrow> [r', g', b', a])"
  by (subst loop.simps, simp add: body_def split: prod.split, subst loop.simps, simp)

lemma wellFormed_pixel:
  assumes "wellFormed img" "p < width img * height img"
  shows "4 * p + 3 < length (data img)"
  using assms by (simp add: wellFormed_def)

section \<open>Dimensions and alpha\<close>

text \<open>
  C9. For every input image data, so for every well-formed one, the output has the width and
  the height of the input, and a buffer of the same length (the same number of pixels); it is
  well formed exactly when the input is.
\<close>

theorem dimensions_preserved:
  "width (duotonePass img) = width img
   \<and> height (duotonePass img) = height img
   \<and> length (data (duotonePass img)) = length (data img)
   \<and> wellFormed (duotonePass img) = wellFormed img"
  by (simp add: duotonePass_def length_loop wellFormed_def)

text \<open>
  C8. For every well-formed image data and every pixel \<open>p\<close> of it, the alpha byte of the
  output pixel is the alpha byte of the input pixel: the pass rewrites the R, G and B bytes
  only.
\<close>

theorem alpha_preserved:
  assumes "wellFormed img" and "p < width img * height img"
  shows "alphaAt (duotonePass img) p = alphaAt img p"
proof -
  have "4 * p + 3 < length (data img)" using assms by (rule wellFormed_pixel)
  then show ?thesis by (simp add: alphaAt_def duotonePass_def loop_alpha)
qed

theorem alpha_preserved_witness:
  "wellFormed \<lparr>width = 2, height = 1, data = [10, 20, 30, 40, 50, 60, 70, 80]\<rparr>
   \<and> (1::nat) < 2 * 1
   \<and> alphaAt (duotonePass \<lparr>width = 2, height = 1, data = [10, 20, 30, 40, 50, 60, 70, 80]\<rparr>) 1
       = 80"
  using alpha_preserved[of "\<lparr>width = 2, height = 1, data = [10, 20, 30, 40, 50, 60, 70, 80]\<rparr>" 1]
  by (simp add: wellFormed_def alphaAt_def)

section \<open>The endpoints and the middle of the scale\<close>



text \<open>
  C1. The claim gives the mid-gray pixel \<open>(128,128,128)\<close> an interpolation parameter of
  about 0.5438 and an output of about \<open>(147,116,129)\<close>: an exposure lighter than the
  input's \<open>128/255\<close>, as the comment of line 105 announces (\<open>Adjust exposure to be
  lighter\<close>). The code does not do so. With \<open>gray = 128\<close>, the exponent \<open>1 / gamma\<close>
  of line 107 is above 1 and darkens: the parameter lies between 0.4649 and 0.4650, below
  \<open>128/255\<close>, and the stored pixel is \<open>(129,113,117)\<close>, whatever the alpha. The power
  with the exponent \<open>gamma\<close> itself would lighten: it lies between 0.537 and 0.538, above
  \<open>128/255\<close> and next to the claim's value.
\<close>

theorem midgray_is_darkened:
  "gray 128 128 128 = 128
   \<and> param 128 128 128 = pow (128 / 255) (1 / gamma)
   \<and> 4649 / 10000 < param 128 128 128 \<and> param 128 128 128 < 4650 / 10000
   \<and> param 128 128 128 < 128 / 255
   \<and> 128 / 255 < pow (128 / 255) gamma
   \<and> 537 / 1000 < pow (128 / 255) gamma \<and> pow (128 / 255) gamma < 538 / 1000
   \<and> pixel 128 128 128 = (129, 113, 117)
   \<and> data (duotonePass \<lparr>width = 1, height = 1, data = [128, 128, 128, a]\<rparr>)
       = [129, 113, 117, a]"
proof -
  have "param 128 128 128 = pow (128 / 255) (1 / gamma)"
    by (simp add: param_def normalizedGray_def correctedGray_def gray_mid)
  moreover have "param 128 128 128 < 128 / 255"
    using param_mid by simp
  moreover have "(128 / 255 :: real) < pow (128 / 255) gamma"
    using lighter_mid by simp
  ultimately show ?thesis
    using param_mid lighter_mid by (simp add: gray_mid pixel_mid duotonePass_def loop_single)
qed

section \<open>Interpolation\<close>




section \<open>Idempotence\<close>

text \<open>
  C5. The pass is not idempotent: there is a well-formed image data on which a second
  application changes the result of the first. One black pixel is mapped to the dark
  endpoint \<open>(27,96,47)\<close>, and that to \<open>(79,105,83)\<close>.
\<close>

theorem not_idempotent:
  "\<exists>img. wellFormed img \<and> duotonePass (duotonePass img) \<noteq> duotonePass img"
proof (intro exI conjI notI)
  show "wellFormed \<lparr>width = 1, height = 1, data = [0, 0, 0, 255]\<rparr>"
    by (simp add: wellFormed_def)
next
  assume "duotonePass (duotonePass \<lparr>width = 1, height = 1, data = [0, 0, 0, 255]\<rparr>)
        = duotonePass \<lparr>width = 1, height = 1, data = [0, 0, 0, 255]\<rparr>"
  then have "data (duotonePass (duotonePass \<lparr>width = 1, height = 1, data = [0, 0, 0, 255]\<rparr>))
        = data (duotonePass \<lparr>width = 1, height = 1, data = [0, 0, 0, 255]\<rparr>)"
    by simp
  then have "[79, 105, 83, 255] = [27, 96, 47, 255 :: uint8]"
    by (simp add: duotonePass_def loop_single pixel_black pixel_dark)
  then show False by simp
qed

section \<open>The range of the output\<close>

text \<open>
  C10. For every well-formed image data and every pixel \<open>p\<close> of it, the output
  channels lie between the channels of the endpoints, R in \<open>[27,247]\<close>, G in \<open>[96,132]\<close>
  and B in \<open>[47,197]\<close>, and the produced colour lies on the segment between the two
  endpoints as far as bytes can: it is, channel by channel, the nearest integer to one point
  \<open>dark + t * (light - dark)\<close> of the segment, \<open>t\<close> in \<open>[0,1]\<close> being the
  interpolation parameter of the input pixel.
\<close>

theorem output_between_endpoints:
  assumes "wellFormed img" and "p < width img * height img"
  shows "27 \<le> num (redAt (duotonePass img) p) \<and> num (redAt (duotonePass img) p) \<le> 247
   \<and> 96 \<le> num (greenAt (duotonePass img) p) \<and> num (greenAt (duotonePass img) p) \<le> 132
   \<and> 47 \<le> num (blueAt (duotonePass img) p) \<and> num (blueAt (duotonePass img) p) \<le> 197
   \<and> 0 \<le> param (redAt img p) (greenAt img p) (blueAt img p)
   \<and> param (redAt img p) (greenAt img p) (blueAt img p) \<le> 1
   \<and> isNearest (redAt (duotonePass img) p)
        (red darkColor + (red lightColor - red darkColor)
           * param (redAt img p) (greenAt img p) (blueAt img p))
   \<and> isNearest (greenAt (duotonePass img) p)
        (green darkColor + (green lightColor - green darkColor)
           * param (redAt img p) (greenAt img p) (blueAt img p))
   \<and> isNearest (blueAt (duotonePass img) p)
        (blue darkColor + (blue lightColor - blue darkColor)
           * param (redAt img p) (greenAt img p) (blueAt img p))"
proof -
  define t where "t = param (redAt img p) (greenAt img p) (blueAt img p)"
  have len: "4 * p + 2 < length (data img)"
    using wellFormed_pixel[OF assms] by simp
  have px: "pixel (redAt img p) (greenAt img p) (blueAt img p)
      = (ToUint8Clamp (27 + 220 * t), ToUint8Clamp (96 + 36 * t), ToUint8Clamp (47 + 150 * t))"
    unfolding t_def by (rule pixel_param)
  have R: "redAt (duotonePass img) p = ToUint8Clamp (27 + 220 * t)"
    using loop_channel[OF len, of 0] px
    by (simp add: redAt_def greenAt_def blueAt_def duotonePass_def)
  have G: "greenAt (duotonePass img) p = ToUint8Clamp (96 + 36 * t)"
    using loop_channel[OF len, of 1] px
    by (simp add: redAt_def greenAt_def blueAt_def duotonePass_def)
  have B: "blueAt (duotonePass img) p = ToUint8Clamp (47 + 150 * t)"
    using loop_channel[OF len, of 2] px
    by (simp add: redAt_def greenAt_def blueAt_def duotonePass_def)
  have b: "0 \<le> t" "t \<le> 1"
    unfolding t_def using param_bounds[of "redAt img p" "greenAt img p" "blueAt img p"]
    by simp_all
  have r1: "27 \<le> num (ToUint8Clamp (27 + 220 * t)) \<and> num (ToUint8Clamp (27 + 220 * t)) \<le> 247"
    using ToUint8Clamp_within[of 27 "27 + 220 * t" 247] b by simp
  have g1: "96 \<le> num (ToUint8Clamp (96 + 36 * t)) \<and> num (ToUint8Clamp (96 + 36 * t)) \<le> 132"
    using ToUint8Clamp_within[of 96 "96 + 36 * t" 132] b by simp
  have b1: "47 \<le> num (ToUint8Clamp (47 + 150 * t)) \<and> num (ToUint8Clamp (47 + 150 * t)) \<le> 197"
    using ToUint8Clamp_within[of 47 "47 + 150 * t" 197] b by simp
  have r2: "isNearest (ToUint8Clamp (27 + 220 * t)) (27 + 220 * t)"
    using ToUint8Clamp_nearest[of "27 + 220 * t"] b by simp
  have g2: "isNearest (ToUint8Clamp (96 + 36 * t)) (96 + 36 * t)"
    using ToUint8Clamp_nearest[of "96 + 36 * t"] b by simp
  have b2: "isNearest (ToUint8Clamp (47 + 150 * t)) (47 + 150 * t)"
    using ToUint8Clamp_nearest[of "47 + 150 * t"] b by simp
  show ?thesis
    unfolding t_def[symmetric] R G B
    using b r1 g1 b1 r2 g2 b2 by (simp add: darkColor_def lightColor_def)
qed

theorem output_between_endpoints_witness:
  "wellFormed \<lparr>width = 1, height = 1, data = [128, 128, 128, 255]\<rparr>
   \<and> (0::nat) < 1 * 1
   \<and> 27 \<le> num (redAt (duotonePass \<lparr>width = 1, height = 1, data = [128, 128, 128, 255]\<rparr>) 0)
   \<and> num (redAt (duotonePass \<lparr>width = 1, height = 1, data = [128, 128, 128, 255]\<rparr>) 0) \<le> 247
   \<and> 96 \<le> num (greenAt (duotonePass \<lparr>width = 1, height = 1, data = [128, 128, 128, 255]\<rparr>) 0)
   \<and> num (greenAt (duotonePass \<lparr>width = 1, height = 1, data = [128, 128, 128, 255]\<rparr>) 0) \<le> 132
   \<and> 47 \<le> num (blueAt (duotonePass \<lparr>width = 1, height = 1, data = [128, 128, 128, 255]\<rparr>) 0)
   \<and> num (blueAt (duotonePass \<lparr>width = 1, height = 1, data = [128, 128, 128, 255]\<rparr>) 0) \<le> 197"
  using output_between_endpoints[of "\<lparr>width = 1, height = 1, data = [128, 128, 128, 255]\<rparr>" 0]
  by (simp add: wellFormed_def)

end
